theory Spec2Isabelle
  imports Main "HOL-Library.Word" "HOL-Library.AList"
begin

section \<open>phishyfs: file types, the scan manager and the batch scan\<close>

text \<open>
  The development follows \<^verbatim>\<open>scanmanager.py\<close> and \<^verbatim>\<open>phfs.py\<close>.
  A Python \<^verbatim>\<open>str\<close> is a \<^typ>\<open>string\<close>; the paths considered are ASCII text.
  A Python \<^verbatim>\<open>bytes\<close> value is a list of 8-bit words. Exceptions are values of
  the type \<open>error\<close>, and a call that may raise returns \<open>error + 'a\<close>.
\<close>

subsection \<open>Exceptions and the environment\<close>

datatype error =
    IndexError        \<comment> \<open>indexing an empty string\<close>
  | AttributeError    \<comment> \<open>reading an attribute of \<^verbatim>\<open>None\<close>\<close>
  | OSError           \<comment> \<open>a file that cannot be opened or read\<close>
  | OtherError        \<comment> \<open>any exception that is not an \<^verbatim>\<open>OSError\<close>\<close>

text \<open>
  What \<^verbatim>\<open>PIL.Image.open\<close> does with a path: it returns an image whose
  \<^verbatim>\<open>format\<close> attribute is a string, or it raises. The imaging library is
  not part of the program, so its verdict is read from the environment.
\<close>

datatype pil_outcome =
    Opened string       \<comment> \<open>an image object, with its \<^verbatim>\<open>format\<close>\<close>
  | RaisesOSError       \<comment> \<open>\<^verbatim>\<open>OSError\<close> or one of its subclasses\<close>
  | RaisesOther         \<comment> \<open>an exception outside \<^verbatim>\<open>OSError\<close>\<close>

text \<open>
  The environment a call runs in: \<open>read_file p\<close> is what
  \<^verbatim>\<open>open(p, 'rb').read()\<close> yields, the content or the exception that opening
  or reading raises, and \<open>image_open p\<close> is the outcome of \<^verbatim>\<open>Image.open(p)\<close>.
\<close>

record env =
  read_file :: "string \<Rightarrow> error + 8 word list"
  image_open :: "string \<Rightarrow> pil_outcome"

subsection \<open>Library functions on strings\<close>

text \<open>
  \<^verbatim>\<open>str.rfind(c)\<close> for a one-character \<open>c\<close>: the highest index at which
  \<open>c\<close> occurs, \<open>-1\<close> when it does not occur.
\<close>

fun rfind :: "string \<Rightarrow> char \<Rightarrow> int" where
  "rfind [] c = - 1"
| "rfind (x # xs) c =
     (let r = rfind xs c
      in if 0 \<le> r then r + 1 else if x = c then 0 else - 1)"

text \<open>
  The loop of \<^verbatim>\<open>genericpath._splitext\<close> that skips the leading dots of the
  file name:
  \<^verbatim>\<open>
      while filenameIndex < dotIndex:
          if p[filenameIndex:filenameIndex+1] != extsep:
              return p[:dotIndex], p[dotIndex:]
          filenameIndex += 1
      return p, p[:0]
  \<close>
\<close>

function splitext_loop :: "string \<Rightarrow> nat \<Rightarrow> nat \<Rightarrow> string \<times> string" where
  "splitext_loop p filenameIndex dotIndex =
     (if filenameIndex < dotIndex
      then (if take 1 (drop filenameIndex p) \<noteq> ''.''
            then (take dotIndex p, drop dotIndex p)
            else splitext_loop p (filenameIndex + 1) dotIndex)
      else (p, []))"
  by pat_completeness auto
termination
  by (relation "measure (\<lambda>(p, filenameIndex, dotIndex). dotIndex - filenameIndex)") auto

declare splitext_loop.simps [simp del]

text \<open>
  \<^verbatim>\<open>os.path.splitext\<close> on a POSIX system (separator \<open>/\<close>, no alternative
  separator, extension separator \<open>.\<close>):
  \<^verbatim>\<open>
      sepIndex = p.rfind(sep)
      dotIndex = p.rfind(extsep)
      if dotIndex > sepIndex:
          filenameIndex = sepIndex + 1
          ... the loop above ...
      return p, p[:0]
  \<close>
\<close>

definition splitext :: "string \<Rightarrow> string \<times> string" where
  "splitext p =
     (let sepIndex = rfind p (CHR ''/'');
          dotIndex = rfind p (CHR ''.'')
      in if dotIndex > sepIndex
         then splitext_loop p (nat (sepIndex + 1)) (nat dotIndex)
         else (p, []))"

text \<open>
  \<^verbatim>\<open>str.casefold\<close> on ASCII text: the letters \<open>A\<close> to \<open>Z\<close> (codes 65 to 90)
  become \<open>a\<close> to \<open>z\<close>, every other character stays.
\<close>

definition casefold_char :: "char \<Rightarrow> char" where
  "casefold_char c =
     (let n = (of_char c :: nat)
      in if 65 \<le> n \<and> n \<le> 90 then char_of (n + 32) else c)"

definition casefold :: "string \<Rightarrow> string" where
  "casefold s = map casefold_char s"

subsection \<open>File types\<close>

text \<open>
  The class \<^verbatim>\<open>FileType\<close> is a record of its attributes and of the two methods
  that subclasses override. \<open>check_format\<close> reads the environment;
  \<open>generate_preview\<close> returns the pair (error string, preview path).
\<close>

record FileType =
  name :: string
  extensions :: "string list"
  threat_base :: int
  attributes :: "string list"
  platform :: string
  check_format :: "env \<Rightarrow> string \<Rightarrow> error + string"
  generate_preview :: "string \<Rightarrow> string \<times> string"

definition FileType_check_format :: "env \<Rightarrow> string \<Rightarrow> error + string" where
  "FileType_check_format ev filepath = Inr []"

definition FileType_generate_preview :: "string \<Rightarrow> string \<times> string" where
  "FileType_generate_preview filepath = (''unimplemented'', [])"

definition FileType_init :: FileType where
  "FileType_init =
     \<lparr> name = [], extensions = [], threat_base = 0, attributes = [], platform = [],
       check_format = FileType_check_format,
       generate_preview = FileType_generate_preview \<rparr>"

subsection \<open>Decoding bytes\<close>

text \<open>
  \<^verbatim>\<open>bytes.decode()\<close> decodes UTF-8 strictly. The decoder accepts exactly the
  well-formed byte sequences: one byte below 128; a lead byte 194 to 223 and one
  continuation byte; a lead byte 224 to 239 and two continuation bytes, without
  overlong forms (224 needs a second byte from 160) and without surrogates (237
  needs a second byte up to 159); a lead byte 240 to 244 and three continuation
  bytes, from U+10000 (240 needs a second byte from 144) up to U+10FFFF (244 needs
  a second byte up to 143). The result is the list of code points; \<open>None\<close> stands
  for \<^verbatim>\<open>UnicodeDecodeError\<close>.
\<close>

definition continuation :: "nat \<Rightarrow> bool" where
  "continuation b = (128 \<le> b \<and> b \<le> 191)"

fun utf8_points :: "nat list \<Rightarrow> nat list option" where
  "utf8_points [] = Some []"
| "utf8_points (b0 # bs) =
     (if b0 < 128 then map_option ((#) b0) (utf8_points bs)
      else if 194 \<le> b0 \<and> b0 \<le> 223 then
        (case bs of
           b1 # rest \<Rightarrow>
             if continuation b1
             then map_option ((#) ((b0 - 192) * 64 + (b1 - 128))) (utf8_points rest)
             else None
         | _ \<Rightarrow> None)
      else if 224 \<le> b0 \<and> b0 \<le> 239 then
        (case bs of
           b1 # b2 # rest \<Rightarrow>
             if (if b0 = 224 then 160 else 128) \<le> b1 \<and>
                b1 \<le> (if b0 = 237 then 159 else 191) \<and> continuation b2
             then map_option
                    ((#) ((b0 - 224) * 4096 + (b1 - 128) * 64 + (b2 - 128)))
                    (utf8_points rest)
             else None
         | _ \<Rightarrow> None)
      else if 240 \<le> b0 \<and> b0 \<le> 244 then
        (case bs of
           b1 # b2 # b3 # rest \<Rightarrow>
             if (if b0 = 240 then 144 else 128) \<le> b1 \<and>
                b1 \<le> (if b0 = 244 then 143 else 191) \<and>
                continuation b2 \<and> continuation b3
             then map_option
                    ((#) ((b0 - 240) * 262144 + (b1 - 128) * 4096
                          + (b2 - 128) * 64 + (b3 - 128)))
                    (utf8_points rest)
             else None
         | _ \<Rightarrow> None)
      else None)"

definition decode :: "8 word list \<Rightarrow> nat list option" where
  "decode rawdata = utf8_points (map unat rawdata)"

subsection \<open>The subclasses\<close>

text \<open>
  \<^verbatim>\<open>PlainTextType.check_format\<close>: the file is opened and read outside the
  \<^verbatim>\<open>try\<close>, so a failure there propagates; the bare \<^verbatim>\<open>except\<close> turns
  every failure of the decoding into the error string.
\<close>

definition PlainTextType_check_format :: "env \<Rightarrow> string \<Rightarrow> error + string" where
  "PlainTextType_check_format ev filepath =
     (case read_file ev filepath of
        Inl e \<Rightarrow> Inl e
      | Inr rawdata \<Rightarrow>
          (case decode rawdata of
             None \<Rightarrow> Inr ''File contains unrecognized characters''
           | Some text \<Rightarrow> Inr []))"

definition PlainTextType :: FileType where
  "PlainTextType =
     FileType_init
       \<lparr> name := ''Plain text'',
         extensions := [''adoc'', ''config'', ''ini'', ''md'', ''txt''],
         check_format := PlainTextType_check_format \<rparr>"

definition ScriptType_check_format :: "env \<Rightarrow> string \<Rightarrow> error + string" where
  "ScriptType_check_format ev filepath =
     (case read_file ev filepath of
        Inl e \<Rightarrow> Inl e
      | Inr rawdata \<Rightarrow>
          (case decode rawdata of
             None \<Rightarrow> Inr ''File contains unrecognized characters''
           | Some text \<Rightarrow> Inr []))"

definition ScriptType :: FileType where
  "ScriptType =
     FileType_init
       \<lparr> name := ''Programming script'',
         extensions := [''c'', ''cpp'', ''css'', ''h'', ''hpp'', ''js'', ''php'', ''ps1'',
                        ''py'', ''rb'', ''rs'', ''sh''],
         attributes := [''script''],
         threat_base := 1,
         check_format := ScriptType_check_format \<rparr>"

text \<open>
  \<^verbatim>\<open>JPEGType.check_format\<close>: only \<^verbatim>\<open>OSError\<close> is caught; any other
  exception of \<^verbatim>\<open>Image.open\<close> propagates.
\<close>

definition JPEGType_check_format :: "env \<Rightarrow> string \<Rightarrow> error + string" where
  "JPEGType_check_format ev filepath =
     (case image_open ev filepath of
        Opened format \<Rightarrow>
          if format \<noteq> ''JPEG'' then Inr ''File is not a JPEG photo'' else Inr []
      | RaisesOSError \<Rightarrow> Inr ''Corrupted file contents''
      | RaisesOther \<Rightarrow> Inl OtherError)"

definition JPEGType_generate_preview :: "string \<Rightarrow> string \<times> string" where
  "JPEGType_generate_preview filepath = ([], filepath)"

definition JPEGType :: FileType where
  "JPEGType =
     FileType_init
       \<lparr> name := ''JPEG Photo'',
         extensions := [''jpg'', ''jpeg''],
         attributes := [''hidden-info''],
         threat_base := 1,
         check_format := JPEGType_check_format,
         generate_preview := JPEGType_generate_preview \<rparr>"

definition PDFType :: FileType where
  "PDFType =
     FileType_init
       \<lparr> name := ''Adobe PDF Document'',
         extensions := [''pdf''],
         attributes := [''macros'', ''hidden-info''],
         threat_base := 3 \<rparr>"

definition WordType :: FileType where
  "WordType =
     FileType_init
       \<lparr> name := ''Microsoft Word Document'',
         extensions := [''doc'', ''docx''],
         attributes := [''macros'', ''hidden-info''],
         threat_base := 3 \<rparr>"

subsection \<open>The scan manager\<close>

record ScanManager =
  types :: "FileType list"

definition load_types :: "ScanManager \<Rightarrow> ScanManager" where
  "load_types self =
     (let self = self\<lparr>types := types self @ [PlainTextType]\<rparr>;
          self = self\<lparr>types := types self @ [ScriptType]\<rparr>;
          self = self\<lparr>types := types self @ [JPEGType]\<rparr>;
          self = self\<lparr>types := types self @ [PDFType]\<rparr>;
          self = self\<lparr>types := types self @ [WordType]\<rparr>
      in self)"

definition ScanManager_init :: ScanManager where
  "ScanManager_init = load_types \<lparr> types = [] \<rparr>"

text \<open>
  The loop of \<^verbatim>\<open>get_type\<close>: the first type, in the order of the list, whose
  extensions contain \<open>ext\<close>; \<^verbatim>\<open>None\<close> when the list is exhausted.
\<close>

fun get_type_loop :: "string \<Rightarrow> FileType list \<Rightarrow> FileType option" where
  "get_type_loop ext [] = None"
| "get_type_loop ext (ftype # rest) =
     (if ext \<in> set (extensions ftype) then Some ftype else get_type_loop ext rest)"

text \<open>
  \<^verbatim>\<open>get_type\<close>: \<^verbatim>\<open>ext[0]\<close> raises \<^verbatim>\<open>IndexError\<close> on the empty
  string.
\<close>

definition get_type :: "ScanManager \<Rightarrow> string \<Rightarrow> error + FileType option" where
  "get_type self filepath =
     (let ext = casefold (snd (splitext filepath))
      in case ext of
           [] \<Rightarrow> Inl IndexError
         | c # cs \<Rightarrow>
             (let ext = (if c = CHR ''.'' then cs else ext)
              in Inr (get_type_loop ext (types self))))"

text \<open>
  The dictionary that \<^verbatim>\<open>scan\<close> returns keeps its keys in insertion order:
  an association list, written with \<open>AList.update\<close>.
\<close>

datatype jvalue = Str string | Bool bool

type_synonym scan_record = "(string \<times> jvalue) list"

text \<open>
  \<^verbatim>\<open>scan\<close>. It is handed the environment, as every method is, and holds
  descriptors whose \<open>check_format\<close> reads it. Reading \<^verbatim>\<open>threat_base\<close> of
  \<^verbatim>\<open>None\<close> raises \<^verbatim>\<open>AttributeError\<close>.
\<close>

definition scan :: "env \<Rightarrow> ScanManager \<Rightarrow> string \<Rightarrow> error + scan_record" where
  "scan ev self filepath =
     (let out = [(''name'', Str filepath)]
      in case get_type self filepath of
           Inl e \<Rightarrow> Inl e
         | Inr ftype \<Rightarrow>
             (let out = (case ftype of
                           Some ft \<Rightarrow>
                             AList.update ''description'' (Str (name ft))
                               (AList.update ''supported'' (Bool True) out)
                         | None \<Rightarrow> out)
              in case ftype of
                   None \<Rightarrow> Inl AttributeError
                 | Some ft \<Rightarrow>
                     (let threat_level = threat_base ft
                      in Inr (AList.update ''danger''
                                (Str (if threat_level > 30 then ''High''
                                      else if threat_level > 20 then ''Moderate''
                                      else if threat_level > 10 then ''Low''
                                      else if threat_level > 0 then ''Minimal''
                                      else ''None''))
                                out))))"

subsection \<open>The batch scan\<close>

text \<open>
  The loop of \<^verbatim>\<open>ScanFilesJSON\<close>: each record is appended to \<open>out\<close>; an
  exception of \<^verbatim>\<open>scan\<close> is not caught and leaves the loop.
\<close>

fun scan_loop ::
  "env \<Rightarrow> ScanManager \<Rightarrow> string list \<Rightarrow> scan_record list \<Rightarrow> error + scan_record list"
where
  "scan_loop ev scanner [] out = Inr out"
| "scan_loop ev scanner (path # rest) out =
     (case scan ev scanner path of
        Inl e \<Rightarrow> Inl e
      | Inr r \<Rightarrow> scan_loop ev scanner rest (out @ [r]))"

text \<open>
  \<^verbatim>\<open>ScanFilesJSON\<close>: the result is the list handed to \<^verbatim>\<open>json.dumps\<close>,
  or the exception that ended the call before anything was printed.
\<close>

definition ScanFilesJSON :: "env \<Rightarrow> string list \<Rightarrow> error + scan_record list" where
  "ScanFilesJSON ev pathlist =
     (let scanner = ScanManager_init
      in scan_loop ev scanner pathlist [])"

text \<open>An environment in which no file can be opened.\<close>

definition no_files :: env where
  "no_files = \<lparr> read_file = (\<lambda>p. Inl OSError), image_open = (\<lambda>p. RaisesOSError) \<rparr>"

text \<open>
  An environment with two files: \<open>a.txt\<close> holds the UTF-8 text \<open>h\<close>, \<open>e\<close> with an
  acute accent; \<open>b.sh\<close> holds the single byte 255.
\<close>

definition two_files :: env where
  "two_files =
     no_files \<lparr> read_file :=
       (\<lambda>p. if p = ''a.txt'' then Inr [0x68, 0xC3, 0xA9]
            else if p = ''b.sh'' then Inr [0xFF]
            else Inl OSError) \<rparr>"


text \<open>
  A manager whose registry holds one type, with extension \<open>x\<close> and the given threat
  base: it reaches the tiers that the five built-in types do not.
\<close>

definition probe_type :: "int \<Rightarrow> FileType" where
  "probe_type t = FileType_init \<lparr> name := ''Probe'', extensions := [''x''], threat_base := t \<rparr>"

definition probe :: "int \<Rightarrow> ScanManager" where
  "probe t = \<lparr> types = [probe_type t] \<rparr>"

section \<open>Properties of the library functions\<close>

lemma rfind_absent: "c \<notin> set xs \<Longrightarrow> rfind xs c = - 1"
  by (induction xs) (auto simp: Let_def)

lemma rfind_lower: "- 1 \<le> rfind xs c"
  by (induction xs) (auto simp: Let_def)

lemma rfind_upper: "rfind xs c < int (length xs)"
  by (induction xs) (auto simp: Let_def)

lemma rfind_append_absent: "c \<notin> set ys \<Longrightarrow> rfind (xs @ ys) c = rfind xs c"
  by (induction xs) (auto simp: Let_def rfind_absent)

lemma rfind_last_occurrence: "c \<notin> set ys \<Longrightarrow> rfind (xs @ c # ys) c = int (length xs)"
  by (induction xs) (auto simp: Let_def rfind_absent)

lemma splitext_loop_found:
  "i \<le> k \<Longrightarrow> k < d \<Longrightarrow> k < length p \<Longrightarrow> p ! k \<noteq> CHR ''.'' \<Longrightarrow>
   splitext_loop p i d = (take d p, drop d p)"
proof (induction p i d rule: splitext_loop.induct)
  case (1 p i d)
  show ?case
  proof (cases "take 1 (drop i p) \<noteq> ''.''")
    case True
    with "1.prems" show ?thesis
      by (subst splitext_loop.simps) simp
  next
    case False
    have "i \<noteq> k"
    proof
      assume "i = k"
      with "1.prems" have "take 1 (drop i p) = [p ! k]"
        by (simp add: take_Suc_conv_app_nth Cons_nth_drop_Suc [symmetric])
      with False "1.prems" show False by simp
    qed
    with "1.prems" have "i + 1 \<le> k" by simp
    with "1.IH" False "1.prems" have "splitext_loop p (i + 1) d = (take d p, drop d p)"
      by simp
    with False "1.prems" show ?thesis
      by (subst splitext_loop.simps) simp
  qed
qed

lemma splitext_extension:
  assumes base: "CHR ''/'' \<notin> set base" "c \<in> set base" "c \<noteq> CHR ''.''"
    and ext: "CHR ''.'' \<notin> set e" "CHR ''/'' \<notin> set e"
  shows "splitext (dir @ base @ CHR ''.'' # e) = (dir @ base, CHR ''.'' # e)"
proof -
  let ?p = "dir @ base @ CHR ''.'' # e"
  have dot: "rfind ?p (CHR ''.'') = int (length dir + length base)"
    using rfind_last_occurrence [OF ext(1), of "dir @ base"] by simp
  have "rfind ?p (CHR ''/'') = rfind dir (CHR ''/'')"
    using rfind_append_absent [of "CHR ''/''" "base @ CHR ''.'' # e" dir] base(1) ext(2)
    by simp
  then have sep: "rfind ?p (CHR ''/'') < int (length dir)" "- 1 \<le> rfind ?p (CHR ''/'')"
    using rfind_upper [of dir "CHR ''/''"] rfind_lower [of dir "CHR ''/''"] by simp_all
  from base(2) obtain j where j: "j < length base" "base ! j = c"
    by (auto simp: in_set_conv_nth)
  let ?k = "length dir + j"
  have k: "?p ! ?k = c" using j by (simp add: nth_append)
  have "splitext_loop ?p (nat (rfind ?p (CHR ''/'') + 1)) (length dir + length base)
          = (take (length dir + length base) ?p, drop (length dir + length base) ?p)"
  proof (rule splitext_loop_found [where k = ?k])
    show "nat (rfind ?p (CHR ''/'') + 1) \<le> ?k" using sep by linarith
    show "?k < length dir + length base" using j by simp
    show "?k < length ?p" using j by simp
    show "?p ! ?k \<noteq> CHR ''.''" using k base(3) by simp
  qed
  then show ?thesis
    using dot sep by (simp add: splitext_def Let_def nat_int_add)
qed

lemma splitext_no_dot: "CHR ''.'' \<notin> set p \<Longrightarrow> splitext p = (p, [])"
  using rfind_lower [of p "CHR ''/''"] by (simp add: splitext_def Let_def rfind_absent)

lemma casefold_char_keeps:
  assumes c: "of_char c < (65::nat)"
  shows "casefold_char d = c \<longleftrightarrow> d = c"
proof (cases "65 \<le> (of_char d :: nat) \<and> (of_char d :: nat) \<le> 90")
  case False
  then have "casefold_char d = d"
    by (simp only: casefold_char_def Let_def if_not_P if_False)
  then show ?thesis by simp
next
  case True
  then have f: "casefold_char d = char_of (of_char d + 32 :: nat)"
    by (simp only: casefold_char_def Let_def if_P)
  have "(of_char (char_of (of_char d + 32 :: nat)) :: nat) = of_char d + 32"
    using True by (simp add: of_char_of)
  with c True have "char_of (of_char d + 32 :: nat) \<noteq> c" by auto
  moreover from c True have "d \<noteq> c" by auto
  ultimately show ?thesis using f by simp
qed

lemma casefold_keeps_dot: "CHR ''.'' \<in> set (casefold v) \<longleftrightarrow> CHR ''.'' \<in> set v"
proof -
  have "of_char (CHR ''.'') < (65::nat)" by simp
  then have k: "\<And>d. casefold_char d = CHR ''.'' \<longleftrightarrow> d = CHR ''.''"
    by (rule casefold_char_keeps)
  show ?thesis unfolding casefold_def set_map image_iff using k by metis
qed

lemma casefold_keeps_slash: "CHR ''/'' \<in> set (casefold v) \<longleftrightarrow> CHR ''/'' \<in> set v"
proof -
  have "of_char (CHR ''/'') < (65::nat)" by simp
  then have k: "\<And>d. casefold_char d = CHR ''/'' \<longleftrightarrow> d = CHR ''/''"
    by (rule casefold_char_keeps)
  show ?thesis unfolding casefold_def set_map image_iff using k by metis
qed

lemma get_type_loop_None:
  "get_type_loop e ts = None \<longleftrightarrow> (\<forall>t\<in>set ts. e \<notin> set (extensions t))"
  by (induction ts) auto

lemma get_type_loop_Some:
  "get_type_loop e ts = Some ft \<Longrightarrow>
     \<exists>pre post. ts = pre @ ft # post \<and> e \<in> set (extensions ft) \<and>
        (\<forall>t\<in>set pre. e \<notin> set (extensions t))"
proof (induction ts)
  case Nil
  then show ?case by simp
next
  case (Cons t ts)
  show ?case
  proof (cases "e \<in> set (extensions t)")
    case True
    with Cons.prems have "t # ts = [] @ ft # ts" "e \<in> set (extensions ft)" by simp_all
    then show ?thesis by fastforce
  next
    case False
    with Cons.prems have "get_type_loop e ts = Some ft" by simp
    from Cons.IH [OF this] obtain pre post where
      "ts = pre @ ft # post" "e \<in> set (extensions ft)" "\<forall>t\<in>set pre. e \<notin> set (extensions t)"
      by blast
    with False have "t # ts = (t # pre) @ ft # post \<and> e \<in> set (extensions ft) \<and>
        (\<forall>t\<in>set (t # pre). e \<notin> set (extensions t))" by simp
    then show ?thesis by blast
  qed
qed

lemma get_type_extension:
  assumes "CHR ''/'' \<notin> set base" "c \<in> set base" "c \<noteq> CHR ''.''"
    and "CHR ''.'' \<notin> set v" "CHR ''/'' \<notin> set v"
  shows "get_type self (dir @ base @ CHR ''.'' # v) = Inr (get_type_loop (casefold v) (types self))"
  using splitext_extension [OF assms]
  by (simp add: get_type_def casefold_def casefold_char_def Let_def)

section \<open>The registry and concrete paths\<close>

lemma types_ScanManager_init:
  "types ScanManager_init = [PlainTextType, ScriptType, JPEGType, PDFType, WordType]"
  by (simp add: ScanManager_init_def load_types_def)

lemma registered_extensions_plain:
  assumes "ft \<in> set (types ScanManager_init)" "e \<in> set (extensions ft)"
  shows "CHR ''.'' \<notin> set e \<and> CHR ''/'' \<notin> set e"
  using assms unfolding types_ScanManager_init
  by (auto simp: PlainTextType_def ScriptType_def JPEGType_def PDFType_def WordType_def
      FileType_init_def)

lemma splitext_README: "splitext ''README'' = (''README'', [])"
  by (simp add: splitext_no_dot)

lemma splitext_dot_txt: "splitext ''.txt'' = (''.txt'', [])"
  by code_simp

lemma splitext_f_x: "splitext ''f.x'' = (''f'', ''.x'')"
  by code_simp

lemma splitext_x_exe: "splitext ''x.exe'' = (''x'', ''.exe'')"
  by code_simp

lemma get_type_probe: "get_type (probe t) ''f.x'' = Inr (Some (probe_type t))"
  by (simp add: get_type_def splitext_f_x casefold_def casefold_char_def probe_def
      probe_type_def)

lemma get_type_x_exe: "get_type ScanManager_init ''x.exe'' = Inr None"
  by (simp add: get_type_def splitext_x_exe casefold_def casefold_char_def
      types_ScanManager_init PlainTextType_def ScriptType_def JPEGType_def PDFType_def
      WordType_def FileType_init_def)

text \<open>Every path without a dot makes \<^verbatim>\<open>get_type\<close> raise.\<close>

lemma get_type_no_dot: "CHR ''.'' \<notin> set p \<Longrightarrow> get_type self p = Inl IndexError"
  by (simp add: get_type_def splitext_no_dot casefold_def)

text \<open>
  Where the extension is not empty, a path that no type lists resolves to
  \<^verbatim>\<open>None\<close>.
\<close>

lemma get_type_unregistered:
  assumes "casefold (snd (splitext p)) = c # cs"
    and "\<forall>ft\<in>set (types self). (if c = CHR ''.'' then cs else c # cs) \<notin> set (extensions ft)"
  shows "get_type self p = Inr None"
  using assms by (simp add: get_type_def Let_def get_type_loop_None)

section \<open>The danger tiers\<close>

text \<open>
  Claim C1. Whenever \<^verbatim>\<open>get_type\<close> resolves a path to a type, \<^verbatim>\<open>scan\<close>
  returns a record whose \<open>danger\<close> follows the thresholds on that type's
  \<open>threat_base\<close>: 0 gives None, 1 to 10 Minimal, 11 to 20 Low, 21 to 30 Moderate, 31
  and more High. This holds for every registry and every integer threat base.
\<close>

theorem scan_danger_tiers:
  assumes "get_type self p = Inr (Some ft)"
  shows "\<exists>r. scan ev self p = Inr r \<and>
    (threat_base ft = 0 \<longrightarrow> map_of r ''danger'' = Some (Str ''None'')) \<and>
    (1 \<le> threat_base ft \<and> threat_base ft \<le> 10 \<longrightarrow>
       map_of r ''danger'' = Some (Str ''Minimal'')) \<and>
    (11 \<le> threat_base ft \<and> threat_base ft \<le> 20 \<longrightarrow>
       map_of r ''danger'' = Some (Str ''Low'')) \<and>
    (21 \<le> threat_base ft \<and> threat_base ft \<le> 30 \<longrightarrow>
       map_of r ''danger'' = Some (Str ''Moderate'')) \<and>
    (31 \<le> threat_base ft \<longrightarrow> map_of r ''danger'' = Some (Str ''High''))"
  using assms by (simp add: scan_def Let_def update_conv')

text \<open>The boundary values 0, 1, 10, 11, 20, 21, 30 and 31, each on a one-type registry.\<close>

theorem scan_danger_tiers_witness:
  "get_type (probe 31) ''f.x'' = Inr (Some (probe_type 31)) \<and>
   (\<exists>r. scan no_files (probe 0) ''f.x'' = Inr r \<and> map_of r ''danger'' = Some (Str ''None'')) \<and>
   (\<exists>r. scan no_files (probe 1) ''f.x'' = Inr r \<and> map_of r ''danger'' = Some (Str ''Minimal'')) \<and>
   (\<exists>r. scan no_files (probe 10) ''f.x'' = Inr r \<and> map_of r ''danger'' = Some (Str ''Minimal'')) \<and>
   (\<exists>r. scan no_files (probe 11) ''f.x'' = Inr r \<and> map_of r ''danger'' = Some (Str ''Low'')) \<and>
   (\<exists>r. scan no_files (probe 20) ''f.x'' = Inr r \<and> map_of r ''danger'' = Some (Str ''Low'')) \<and>
   (\<exists>r. scan no_files (probe 21) ''f.x'' = Inr r \<and> map_of r ''danger'' = Some (Str ''Moderate'')) \<and>
   (\<exists>r. scan no_files (probe 30) ''f.x'' = Inr r \<and> map_of r ''danger'' = Some (Str ''Moderate'')) \<and>
   (\<exists>r. scan no_files (probe 31) ''f.x'' = Inr r \<and> map_of r ''danger'' = Some (Str ''High''))"
proof -
  have tb: "\<And>t. threat_base (probe_type t) = t"
    by (simp add: probe_type_def)
  show ?thesis
    using scan_danger_tiers [OF get_type_probe [of 0], of no_files]
      scan_danger_tiers [OF get_type_probe [of 1], of no_files]
      scan_danger_tiers [OF get_type_probe [of 10], of no_files]
      scan_danger_tiers [OF get_type_probe [of 11], of no_files]
      scan_danger_tiers [OF get_type_probe [of 20], of no_files]
      scan_danger_tiers [OF get_type_probe [of 21], of no_files]
      scan_danger_tiers [OF get_type_probe [of 30], of no_files]
      scan_danger_tiers [OF get_type_probe [of 31], of no_files]
    unfolding tb by (simp add: get_type_probe)
qed

section \<open>Paths that resolve to no type\<close>

text \<open>
  Claim C2. A path with no extension at all does not make \<^verbatim>\<open>get_type\<close> return
  \<^verbatim>\<open>None\<close>: the extension is the empty string, and \<^verbatim>\<open>ext[0]\<close> raises
  \<^verbatim>\<open>IndexError\<close>. Evaluated at the path \<open>README\<close>.
\<close>

theorem get_type_no_extension: "get_type ScanManager_init ''README'' = Inl IndexError"
  by (simp add: get_type_def splitext_README casefold_def)

text \<open>
  Claim C3. When \<^verbatim>\<open>get_type\<close> resolves no type for a path, \<^verbatim>\<open>scan\<close> raises
  and returns no record; when \<^verbatim>\<open>get_type\<close> returned \<^verbatim>\<open>None\<close>, the exception
  is the \<^verbatim>\<open>AttributeError\<close> of reading \<^verbatim>\<open>threat_base\<close>.
\<close>

theorem scan_unresolved_fails:
  assumes "\<forall>ft. get_type self p \<noteq> Inr (Some ft)"
  shows "(\<exists>e. scan ev self p = Inl e) \<and>
         (get_type self p = Inr None \<longrightarrow> scan ev self p = Inl AttributeError)"
proof (cases "get_type self p")
  case (Inl e)
  then show ?thesis by (simp add: scan_def)
next
  case (Inr ftype)
  with assms have "ftype = None" by (cases ftype) auto
  with Inr show ?thesis by (simp add: scan_def)
qed

theorem scan_unresolved_fails_witness:
  "(\<forall>ft. get_type ScanManager_init ''x.exe'' \<noteq> Inr (Some ft)) \<and>
   get_type ScanManager_init ''x.exe'' = Inr None \<and>
   scan no_files ScanManager_init ''x.exe'' = Inl AttributeError"
proof -
  have h: "\<forall>ft. get_type ScanManager_init ''x.exe'' \<noteq> Inr (Some ft)"
    by (simp add: get_type_x_exe)
  show ?thesis
    using h scan_unresolved_fails [OF h, of no_files] by (simp add: get_type_x_exe)
qed

section \<open>The scan and the file system\<close>

text \<open>
  Claim C10. \<^verbatim>\<open>scan\<close> reads nothing from the environment: in any two
  environments (whatever files exist in them and whatever they hold) it gives the same
  result, record or exception, for the same manager and path.
\<close>

theorem scan_env_independent: "scan ev self p = scan ev' self p"
  by (simp add: scan_def)

section \<open>Resolving registered extensions\<close>

text \<open>
  Claim C6, as stated, fails on a file name that is only leading dots and the
  extension: \<^verbatim>\<open>splitext\<close> gives such a name no extension, so for \<open>.txt\<close> the
  call does not return the plain-text type.
\<close>

theorem get_type_dotfile: "get_type ScanManager_init ''.txt'' = Inl IndexError"
  by (simp add: get_type_def splitext_dot_txt casefold_def)

text \<open>
  Claim C6, amended. Let \<open>e\<close> be an extension of a registered type, \<open>v\<close> any
  spelling of it in upper and lower case, and let the path end in a file name made of
  a stem \<open>base\<close> that contains a character other than the dot, a dot, and \<open>v\<close>.
  Then \<^verbatim>\<open>get_type\<close> returns the first type of the registry, in construction order,
  whose extensions contain \<open>e\<close>.
\<close>

theorem get_type_registered_extension:
  assumes "ft \<in> set (types ScanManager_init)" "e \<in> set (extensions ft)"
    and "casefold v = e"
    and "CHR ''/'' \<notin> set base" "\<exists>c\<in>set base. c \<noteq> CHR ''.''"
  shows "\<exists>pre first post.
      types ScanManager_init = pre @ first # post \<and>
      e \<in> set (extensions first) \<and>
      (\<forall>t\<in>set pre. e \<notin> set (extensions t)) \<and>
      get_type ScanManager_init (dir @ base @ ''.'' @ v) = Inr (Some first)"
proof -
  from assms(5) obtain c where c: "c \<in> set base" "c \<noteq> CHR ''.''" by blast
  from registered_extensions_plain [OF assms(1,2)] assms(3)
  have v: "CHR ''.'' \<notin> set v" "CHR ''/'' \<notin> set v"
    using casefold_keeps_dot [of v] casefold_keeps_slash [of v] by simp_all
  have g: "get_type ScanManager_init (dir @ base @ CHR ''.'' # v)
          = Inr (get_type_loop e (types ScanManager_init))"
    using get_type_extension [OF assms(4) c v] assms(3) by simp
  from assms(1,2) have "get_type_loop e (types ScanManager_init) \<noteq> None"
    by (auto simp: get_type_loop_None)
  then obtain first where f: "get_type_loop e (types ScanManager_init) = Some first"
    by blast
  from get_type_loop_Some [OF f] obtain pre post where
    "types ScanManager_init = pre @ first # post" "e \<in> set (extensions first)"
    "\<forall>t\<in>set pre. e \<notin> set (extensions t)" by blast
  with g f show ?thesis by auto
qed

theorem get_type_registered_extension_witness:
  "PlainTextType \<in> set (types ScanManager_init) \<and> ''txt'' \<in> set (extensions PlainTextType) \<and>
   casefold ''TxT'' = ''txt'' \<and> CHR ''/'' \<notin> set ''readme'' \<and>
   (\<exists>c\<in>set ''readme''. c \<noteq> CHR ''.'') \<and>
   (\<exists>pre first post.
      types ScanManager_init = pre @ first # post \<and>
      ''txt'' \<in> set (extensions first) \<and>
      (\<forall>t\<in>set pre. ''txt'' \<notin> set (extensions t)) \<and>
      get_type ScanManager_init ''docs/readme.TxT'' = Inr (Some first))"
proof -
  have h1: "PlainTextType \<in> set (types ScanManager_init)"
    by (simp add: types_ScanManager_init)
  have h2: "''txt'' \<in> set (extensions PlainTextType)"
    by (simp add: PlainTextType_def FileType_init_def)
  have h3: "casefold ''TxT'' = ''txt''"
    by code_simp
  have h4: "CHR ''/'' \<notin> set ''readme''" by simp
  have h5: "\<exists>c\<in>set ''readme''. c \<noteq> CHR ''.''" by simp
  from get_type_registered_extension [OF h1 h2 h3 h4 h5, of "''docs/''"]
  show ?thesis using h1 h2 h3 by simp
qed

section \<open>Scanning a PDF\<close>

lemma splitext_x_pdf: "splitext ''x.pdf'' = (''x'', ''.pdf'')"
  by code_simp

lemma splitext_dot_pdf: "splitext ''.pdf'' = (''.pdf'', [])"
  by code_simp

lemma get_type_loop_pdf: "get_type_loop ''pdf'' (types ScanManager_init) = Some PDFType"
  by (simp add: types_ScanManager_init PlainTextType_def ScriptType_def JPEGType_def
      FileType_init_def)
     (simp add: PDFType_def FileType_init_def)

lemma casefold_pdf: "casefold ''pdf'' = ''pdf''"
  by (simp add: casefold_def casefold_char_def)

lemma PDFType_fields:
  "name PDFType = ''Adobe PDF Document''" "threat_base PDFType = 3"
  by (simp_all add: PDFType_def FileType_init_def)

lemma scan_of_PDFType:
  "get_type self p = Inr (Some PDFType) \<Longrightarrow>
   scan ev self p =
     Inr [(''name'', Str p), (''supported'', Bool True),
          (''description'', Str ''Adobe PDF Document''), (''danger'', Str ''Minimal'')]"
  by (simp add: scan_def PDFType_fields)

text \<open>
  Claim C5, as stated, fails: the threat base of the PDF type is 3, which the
  thresholds place in the tier Minimal, not Moderate. And for the path \<open>.pdf\<close>,
  to which \<^verbatim>\<open>splitext\<close> gives no extension, no record is returned.
\<close>

theorem scan_pdf_counterexample:
  "scan no_files ScanManager_init ''x.pdf'' =
     Inr [(''name'', Str ''x.pdf''), (''supported'', Bool True),
          (''description'', Str ''Adobe PDF Document''), (''danger'', Str ''Minimal'')] \<and>
   map_of (projr (scan no_files ScanManager_init ''x.pdf'')) ''danger''
     \<noteq> Some (Str ''Moderate'') \<and>
   scan no_files ScanManager_init ''.pdf'' = Inl IndexError"
proof -
  have "get_type ScanManager_init ''x.pdf'' = Inr (Some PDFType)"
    using get_type_loop_pdf
    by (simp add: get_type_def splitext_x_pdf casefold_def casefold_char_def)
  from scan_of_PDFType [OF this, of no_files] show ?thesis
    by (simp add: scan_def get_type_def splitext_dot_pdf casefold_def)
qed

text \<open>
  Claim C5, amended. For every path that ends in \<open>.pdf\<close> after a stem with a
  character other than the dot, \<^verbatim>\<open>scan\<close> returns the record with description
  \<open>Adobe PDF Document\<close> and danger \<open>Minimal\<close>.
\<close>

theorem scan_pdf_minimal:
  assumes "CHR ''/'' \<notin> set base" "\<exists>c\<in>set base. c \<noteq> CHR ''.''"
  shows "scan ev ScanManager_init (dir @ base @ ''.pdf'') =
     Inr [(''name'', Str (dir @ base @ ''.pdf'')), (''supported'', Bool True),
          (''description'', Str ''Adobe PDF Document''), (''danger'', Str ''Minimal'')]"
proof -
  from assms(2) obtain c where c: "c \<in> set base" "c \<noteq> CHR ''.''" by blast
  have "get_type ScanManager_init (dir @ base @ CHR ''.'' # ''pdf'')
          = Inr (get_type_loop (casefold ''pdf'') (types ScanManager_init))"
    by (rule get_type_extension [OF assms(1) c]) simp_all
  then have "get_type ScanManager_init (dir @ base @ ''.pdf'') = Inr (Some PDFType)"
    by (simp add: casefold_pdf get_type_loop_pdf)
  then show ?thesis by (rule scan_of_PDFType)
qed

theorem scan_pdf_minimal_witness:
  "CHR ''/'' \<notin> set ''report'' \<and> (\<exists>c\<in>set ''report''. c \<noteq> CHR ''.'') \<and>
   scan no_files ScanManager_init ''mail/report.pdf'' =
     Inr [(''name'', Str ''mail/report.pdf''), (''supported'', Bool True),
          (''description'', Str ''Adobe PDF Document''), (''danger'', Str ''Minimal'')]"
proof -
  have h1: "CHR ''/'' \<notin> set ''report''" by simp
  have h2: "\<exists>c\<in>set ''report''. c \<noteq> CHR ''.''" by simp
  show ?thesis
    using h1 h2 scan_pdf_minimal [OF h1 h2, of no_files "''mail/''"] by simp
qed

section \<open>The batch scan\<close>

lemma scan_loop_all_ok:
  "\<forall>p\<in>set ps. \<exists>r. scan ev self p = Inr r \<Longrightarrow>
   scan_loop ev self ps out = Inr (out @ map (\<lambda>p. projr (scan ev self p)) ps)"
proof (induction ps arbitrary: out)
  case Nil
  then show ?case by simp
next
  case (Cons p ps)
  from Cons.prems obtain r where r: "scan ev self p = Inr r" by auto
  from Cons.prems have "\<forall>q\<in>set ps. \<exists>r. scan ev self q = Inr r" by simp
  from Cons.IH [OF this, of "out @ [r]"] r show ?case by simp
qed

lemma scan_loop_first_failure:
  "\<forall>p\<in>set pre. \<exists>r. scan ev self p = Inr r \<Longrightarrow> scan ev self bad = Inl e \<Longrightarrow>
   scan_loop ev self (pre @ bad # post) out = Inl e"
proof (induction pre arbitrary: out)
  case Nil
  then show ?case by simp
next
  case (Cons p pre)
  from Cons.prems obtain r where r: "scan ev self p = Inr r" by auto
  from Cons.prems have "\<forall>q\<in>set pre. \<exists>r. scan ev self q = Inr r" by simp
  from Cons.IH [OF this Cons.prems(2), of "out @ [r]"] r show ?case by simp
qed

lemma scan_README: "scan ev ScanManager_init ''README'' = Inl IndexError"
  by (simp add: scan_def get_type_def splitext_README casefold_def)

lemma splitext_a_txt: "splitext ''a.txt'' = (''a'', ''.txt'')"
  by code_simp

lemma scan_a_txt:
  "scan ev ScanManager_init ''a.txt'' =
     Inr [(''name'', Str ''a.txt''), (''supported'', Bool True),
          (''description'', Str ''Plain text''), (''danger'', Str ''None'')]"
  by (simp add: scan_def get_type_def splitext_a_txt casefold_def casefold_char_def
      types_ScanManager_init PlainTextType_def FileType_init_def)

lemma splitext_b_py: "splitext ''b.py'' = (''b'', ''.py'')"
  by code_simp

lemma scan_b_py:
  "scan ev ScanManager_init ''b.py'' =
     Inr [(''name'', Str ''b.py''), (''supported'', Bool True),
          (''description'', Str ''Programming script''), (''danger'', Str ''Minimal'')]"
  by (simp add: scan_def get_type_def splitext_b_py casefold_def casefold_char_def
      types_ScanManager_init PlainTextType_def ScriptType_def FileType_init_def)

text \<open>
  Claim C4, as stated, fails: \<^verbatim>\<open>ScanFilesJSON\<close> catches nothing, so the first
  path whose scan raises ends the batch, and no record is produced for the other
  paths, although a scan of \<open>a.txt\<close> alone succeeds.
\<close>

theorem ScanFilesJSON_counterexample:
  "scan no_files ScanManager_init ''a.txt'' =
     Inr [(''name'', Str ''a.txt''), (''supported'', Bool True),
          (''description'', Str ''Plain text''), (''danger'', Str ''None'')] \<and>
   ScanFilesJSON no_files [''README'', ''a.txt''] = Inl IndexError"
  by (simp add: ScanFilesJSON_def scan_README scan_a_txt)

text \<open>
  Claim C4, amended. For every list of N paths of which each scan succeeds, the batch
  produces exactly N records, the i-th being the record of the i-th path. When the
  scan of some path raises and the scans of all paths before it succeed, the batch
  raises that exception and produces no records.
\<close>

theorem ScanFilesJSON_records:
  "((\<forall>p\<in>set pathlist. \<exists>r. scan ev ScanManager_init p = Inr r) \<longrightarrow>
      (\<exists>rs. ScanFilesJSON ev pathlist = Inr rs \<and> length rs = length pathlist \<and>
         (\<forall>i<length pathlist. scan ev ScanManager_init (pathlist ! i) = Inr (rs ! i)))) \<and>
   ((\<forall>p\<in>set pre. \<exists>r. scan ev ScanManager_init p = Inr r) \<and>
      scan ev ScanManager_init bad = Inl e \<longrightarrow>
      ScanFilesJSON ev (pre @ bad # post) = Inl e)"
proof (intro conjI impI)
  assume ok: "\<forall>p\<in>set pathlist. \<exists>r. scan ev ScanManager_init p = Inr r"
  let ?rs = "map (\<lambda>p. projr (scan ev ScanManager_init p)) pathlist"
  have "ScanFilesJSON ev pathlist = Inr ?rs"
    using scan_loop_all_ok [OF ok, of "[]"] by (simp add: ScanFilesJSON_def)
  moreover have "length ?rs = length pathlist" by simp
  moreover have "\<forall>i<length pathlist. scan ev ScanManager_init (pathlist ! i) = Inr (?rs ! i)"
  proof (intro allI impI)
    fix i assume "i < length pathlist"
    then have "pathlist ! i \<in> set pathlist" by simp
    with ok obtain r where "scan ev ScanManager_init (pathlist ! i) = Inr r" by blast
    with \<open>i < length pathlist\<close> show "scan ev ScanManager_init (pathlist ! i) = Inr (?rs ! i)"
      by simp
  qed
  ultimately show "\<exists>rs. ScanFilesJSON ev pathlist = Inr rs \<and> length rs = length pathlist \<and>
         (\<forall>i<length pathlist. scan ev ScanManager_init (pathlist ! i) = Inr (rs ! i))"
    by blast
next
  assume "(\<forall>p\<in>set pre. \<exists>r. scan ev ScanManager_init p = Inr r) \<and>
      scan ev ScanManager_init bad = Inl e"
  then show "ScanFilesJSON ev (pre @ bad # post) = Inl e"
    using scan_loop_first_failure [of pre ev ScanManager_init bad e post "[]"]
    by (simp add: ScanFilesJSON_def)
qed

theorem ScanFilesJSON_records_witness:
  "(\<exists>r. scan no_files ScanManager_init ''a.txt'' = Inr r) \<and>
   (\<exists>r. scan no_files ScanManager_init ''b.py'' = Inr r) \<and>
   (\<exists>rs. ScanFilesJSON no_files [''a.txt'', ''b.py''] = Inr rs \<and>
      length rs = length [''a.txt'', ''b.py''] \<and>
      (\<forall>i<length [''a.txt'', ''b.py''].
         scan no_files ScanManager_init ([''a.txt'', ''b.py''] ! i) = Inr (rs ! i))) \<and>
   scan no_files ScanManager_init ''README'' = Inl IndexError \<and>
   ScanFilesJSON no_files ([''a.txt''] @ ''README'' # [''b.py'']) = Inl IndexError"
proof -
  have a: "\<exists>r. scan no_files ScanManager_init ''a.txt'' = Inr r"
    by (simp add: scan_a_txt)
  have b: "\<exists>r. scan no_files ScanManager_init ''b.py'' = Inr r"
    by (simp add: scan_b_py)
  from a b have h1:
    "\<forall>p\<in>set [''a.txt'', ''b.py'']. \<exists>r. scan no_files ScanManager_init p = Inr r"
    by simp
  from a have h2: "\<forall>p\<in>set [''a.txt'']. \<exists>r. scan no_files ScanManager_init p = Inr r"
    by simp
  have h3: "scan no_files ScanManager_init ''README'' = Inl IndexError"
    by (rule scan_README)
  from ScanFilesJSON_records [of "[''a.txt'', ''b.py'']" no_files "[''a.txt'']" "''README''"
      IndexError "[''b.py'']"] a b h1 h2 h3
  show ?thesis by blast
qed

section \<open>Format checks and previews\<close>

text \<open>
  The decoder accepts every ASCII file, accepts multi-byte sequences, and rejects a
  stray byte, a truncated sequence, an overlong form, a surrogate and a code point
  above U+10FFFF.
\<close>

lemma utf8_points_ascii:
  "\<forall>b\<in>set bs. b < 128 \<Longrightarrow> utf8_points bs = Some bs"
  by (induction bs) simp_all

lemma decode_ascii:
  "\<forall>b\<in>set rawdata. b < 128 \<Longrightarrow> decode rawdata = Some (map unat rawdata)"
  unfolding decode_def by (rule utf8_points_ascii) (auto simp: word_less_nat_alt)

lemma decode_two_bytes: "decode [0x68, 0xC3, 0xA9] = Some [104, 233]"
  by (simp add: decode_def continuation_def)

lemma decode_euro: "decode [0xE2, 0x82, 0xAC] = Some [8364]"
  by (simp add: decode_def continuation_def)

lemma decode_rejects:
  "decode [0xFF] = None"
  "decode [0xC3] = None"
  "decode [0xC0, 0x80] = None"
  "decode [0xED, 0xA0, 0x80] = None"
  "decode [0xF4, 0x90, 0x80, 0x80] = None"
  by (simp_all add: decode_def continuation_def)

lemma check_format_fields:
  "check_format PlainTextType = PlainTextType_check_format"
  "check_format ScriptType = ScriptType_check_format"
  "check_format JPEGType = JPEGType_check_format"
  "check_format PDFType = FileType_check_format"
  "check_format WordType = FileType_check_format"
  by (simp_all add: PlainTextType_def ScriptType_def JPEGType_def PDFType_def WordType_def
      FileType_init_def)

lemma generate_preview_fields:
  "generate_preview PlainTextType = FileType_generate_preview"
  "generate_preview ScriptType = FileType_generate_preview"
  "generate_preview JPEGType = JPEGType_generate_preview"
  "generate_preview PDFType = FileType_generate_preview"
  "generate_preview WordType = FileType_generate_preview"
  by (simp_all add: PlainTextType_def ScriptType_def JPEGType_def PDFType_def WordType_def
      FileType_init_def)

text \<open>
  Claim C7. For a file that can be read, \<^verbatim>\<open>PlainTextType.check_format\<close> returns
  the empty string when the bytes decode as UTF-8 (of which ASCII is a part) and
  \<open>File contains unrecognized characters\<close> when they do not;
  \<^verbatim>\<open>ScriptType.check_format\<close> returns the same as
  \<^verbatim>\<open>PlainTextType.check_format\<close> on every environment and path.
\<close>

theorem text_check_format:
  "check_format ScriptType ev p = check_format PlainTextType ev p \<and>
   (read_file ev p = Inr rawdata \<and> decode rawdata \<noteq> None \<longrightarrow>
      check_format PlainTextType ev p = Inr []) \<and>
   (read_file ev p = Inr rawdata \<and> decode rawdata = None \<longrightarrow>
      check_format PlainTextType ev p = Inr ''File contains unrecognized characters'')"
  by (auto simp: check_format_fields PlainTextType_check_format_def
      ScriptType_check_format_def split: option.splits sum.splits)

theorem text_check_format_witness:
  "read_file two_files ''a.txt'' = Inr [0x68, 0xC3, 0xA9] \<and>
   decode [0x68, 0xC3, 0xA9] \<noteq> None \<and>
   check_format PlainTextType two_files ''a.txt'' = Inr [] \<and>
   read_file two_files ''b.sh'' = Inr [0xFF] \<and>
   decode [0xFF] = None \<and>
   check_format ScriptType two_files ''b.sh'' = Inr ''File contains unrecognized characters''"
proof -
  let ?ev = "two_files"
  have a: "read_file ?ev ''a.txt'' = Inr [0x68, 0xC3, 0xA9]" by (simp add: two_files_def)
  have b: "read_file ?ev ''b.sh'' = Inr [0xFF]" by (simp add: two_files_def)
  have da: "decode [0x68, 0xC3, 0xA9] \<noteq> None" by (simp add: decode_two_bytes)
  have db: "decode [0xFF] = None" by (rule decode_rejects)
  from text_check_format [of ?ev "''a.txt''" "[0x68, 0xC3, 0xA9]"]
    text_check_format [of ?ev "''b.sh''" "[0xFF]"] a b da db
  show ?thesis by presburger
qed



text \<open>
  Claim C9. For every path, the preview of the JPEG type is the pair of the empty
  error and the path itself; the plain-text, script, PDF and Word types return the pair
  of \<open>unimplemented\<close> and the empty path.
\<close>

theorem generate_preview_results:
  "generate_preview JPEGType p = ([], p) \<and>
   generate_preview PlainTextType p = (''unimplemented'', []) \<and>
   generate_preview ScriptType p = (''unimplemented'', []) \<and>
   generate_preview PDFType p = (''unimplemented'', []) \<and>
   generate_preview WordType p = (''unimplemented'', [])"
  by (simp add: generate_preview_fields JPEGType_generate_preview_def
      FileType_generate_preview_def)

text \<open>
  A path whose file cannot be opened: the format check of its type raises, the scan
  returns the record all the same.
\<close>

lemma scan_missing_file:
  "read_file no_files ''a.txt'' = Inl OSError \<and>
   check_format PlainTextType no_files ''a.txt'' = Inl OSError \<and>
   scan no_files ScanManager_init ''a.txt'' =
     Inr [(''name'', Str ''a.txt''), (''supported'', Bool True),
          (''description'', Str ''Plain text''), (''danger'', Str ''None'')]"
  by (simp add: scan_a_txt check_format_fields PlainTextType_check_format_def no_files_def)

end
